theory Spec2Isabelle
  imports Main
begin

section \<open>The bulk uploader of upload_script.js\<close>

subsection \<open>Records parsed from companies.json\<close>

text \<open>
  \<^verbatim>\<open>const companies = JSON.parse(fs.readFileSync('companies.json', 'utf8'));\<close>
  A parsed JSON value. The script never computes with a number, so numbers are carried
  as opaque integer literals. The file holds an array of objects (section 6 of the
  specification). A company is one of these objects, given by the list of its own
  properties (a JavaScript object has each property name once).
\<close>

datatype json =
    JNull
  | JBool bool
  | JNum int
  | JStr string
  | JArr "json list"
  | JObj "(string \<times> json) list"

type_synonym company = "(string \<times> json) list"

text \<open>
  The property read \<^verbatim>\<open>company.companyName\<close>: \<open>None\<close> is JavaScript's
  \<^verbatim>\<open>undefined\<close>, the value of a property the object does not have.
\<close>

definition companyName :: "company \<Rightarrow> json option" where
  "companyName company = map_of company ''companyName''"

subsection \<open>The store client\<close>

text \<open>
  The script talks to the store through the firebase-admin client \<^verbatim>\<open>db\<close>, which
  is a dependency and not part of the repository. What the client decides on its own is a
  parameter of the model:
  \<^item> \<open>doc db c v\<close> is \<^verbatim>\<open>db.collection(c).doc(v)\<close>: the reference of the
    document addressed by \<open>v\<close> in collection \<open>c\<close>, or the exception the client throws
    for an argument it does not accept;
  \<^item> \<open>commit_error db ws s\<close> is the answer of the store to the commit of the staged
    writes \<open>ws\<close> in state \<open>s\<close>: \<open>None\<close> when it acknowledges, \<open>Some e\<close> when the
    promise of \<^verbatim>\<open>batch.commit()\<close> rejects with \<open>e\<close>;
  \<^item> \<open>winner db ds\<close> is the choice of the store among several writes of one batch to
    one document: of their data \<open>ds\<close>, listed in staging order, the position of the one
    that the document holds in the end (a position past the end names the last).
\<close>

record ('ref, 'e) firestore =
  doc :: "string \<Rightarrow> json option \<Rightarrow> 'e + 'ref"
  commit_error :: "('ref \<times> company) list \<Rightarrow> ('ref \<rightharpoonup> company) \<Rightarrow> 'e option"
  winner :: "company list \<Rightarrow> nat"

text \<open>
  The write batch is an object of the client library as well. Its three operations are
  modelled from the remote store contract of the specification (section 6). A batch is
  the list of its staged writes, oldest first.
\<close>

text \<open>
  Modelled from the spec: \<^verbatim>\<open>db.batch()\<close> of the client library, which constructs
  an empty atomic write batch.
\<close>

definition batch :: "('ref \<times> company) list" where
  "batch = []"

text \<open>
  Modelled from the spec: \<^verbatim>\<open>batch.set(docRef, data)\<close> of the client library, which
  stages a full-document overwrite; it is purely local to the batch object.
\<close>

definition batch_set ::
  "('ref \<times> company) list \<Rightarrow> 'ref \<Rightarrow> company \<Rightarrow> ('ref \<times> company) list" where
  "batch_set b docRef data = b @ [(docRef, data)]"

text \<open>The data of the writes that a batch holds for one document, in staging order.\<close>

definition staged_for :: "'ref \<Rightarrow> ('ref \<times> company) list \<Rightarrow> company list" where
  "staged_for docRef ws = map snd (filter (\<lambda>w. fst w = docRef) ws)"

text \<open>
  Modelled from the spec: what the store does with an accepted batch, which is the work
  of the store behind the client library. A document no write of the batch goes to stays
  as it is. A write replaces the whole document at its reference (an overwrite, not a
  merge), so a document the batch writes to holds the data of one of these writes. Which
  one, where several go to one document, the specification leaves open (sections 3 and
  9): it is the store's choice \<open>winner\<close>.
\<close>

definition apply_writes ::
  "('ref, 'e) firestore \<Rightarrow> ('ref \<times> company) list \<Rightarrow> ('ref \<rightharpoonup> company)
     \<Rightarrow> ('ref \<rightharpoonup> company)" where
  "apply_writes db ws s =
     (\<lambda>docRef. case staged_for docRef ws of
        [] \<Rightarrow> s docRef
      | data # later \<Rightarrow> Some ((data # later) ! min (winner db (data # later)) (length later)))"

text \<open>
  Modelled from the spec: \<^verbatim>\<open>batch.commit()\<close> of the client library, which applies
  every staged write atomically, or rejects the whole batch: \<open>Inl e\<close> is the rejection,
  \<open>Inr s'\<close> the store after the batch was applied.
\<close>

definition commit ::
  "('ref, 'e) firestore \<Rightarrow> ('ref \<times> company) list \<Rightarrow> ('ref \<rightharpoonup> company)
     \<Rightarrow> 'e + ('ref \<rightharpoonup> company)" where
  "commit db b s =
     (case commit_error db b s of
        Some e \<Rightarrow> Inl e
      | None \<Rightarrow> Inr (apply_writes db b s))"

subsection \<open>uploadCompanies\<close>

text \<open>
  What one run of the script leaves behind: the console lines in order, the batches
  handed to \<^verbatim>\<open>commit\<close> (the network calls), the batches the store applied (the
  mutation events), the store afterwards, and how the promise of
  \<^verbatim>\<open>uploadCompanies()\<close> settled.
\<close>

datatype 'e console = Log string | is_Error: Error string 'e

datatype 'e settled = Resolved | Rejected 'e

record ('ref, 'e) run =
  console :: "'e console list"
  submitted :: "('ref \<times> company) list list"
  applied :: "('ref \<times> company) list list"
  store_after :: "'ref \<rightharpoonup> company"
  settled :: "'e settled"

text \<open>The decimal numeral a template literal prints for \<^verbatim>\<open>companies.length\<close>.\<close>

definition digit :: "nat \<Rightarrow> char" where
  "digit d = ''0123456789'' ! d"

fun show_nat :: "nat \<Rightarrow> string" where
  "show_nat n = (if n < 10 then [digit n] else show_nat (n div 10) @ [digit (n mod 10)])"

declare show_nat.simps [simp del]

text \<open>
  \<^verbatim>\<open>
  companies.forEach(company => {
    const docRef = db.collection('targetCompanies').doc(company.companyName);
    batch.set(docRef, company);
  });
  \<close>
  The loop visits the records in order. An exception thrown by \<^verbatim>\<open>doc\<close> ends it at
  once, with the records before it staged in the local batch only.
\<close>

fun forEach_company ::
  "('ref, 'e) firestore \<Rightarrow> company list \<Rightarrow> ('ref \<times> company) list
     \<Rightarrow> 'e + ('ref \<times> company) list" where
  "forEach_company db [] b = Inr b"
| "forEach_company db (company # rest) b =
     (case doc db ''targetCompanies'' (companyName company) of
        Inl e \<Rightarrow> Inl e
      | Inr docRef \<Rightarrow> forEach_company db rest (batch_set b docRef company))"

text \<open>
  The loop stands before the \<^verbatim>\<open>try\<close>, so its exception rejects the promise of the
  async function. The \<^verbatim>\<open>catch\<close> around \<^verbatim>\<open>await batch.commit()\<close> logs a rejected
  commit and lets the function return normally.
\<close>

definition uploadCompanies ::
  "('ref, 'e) firestore \<Rightarrow> company list \<Rightarrow> ('ref \<rightharpoonup> company) \<Rightarrow> ('ref, 'e) run" where
  "uploadCompanies db companies store =
     (case forEach_company db companies batch of
        Inl e \<Rightarrow>
          \<lparr>console = [Log ''Starting company upload...''],
           submitted = [], applied = [], store_after = store, settled = Rejected e\<rparr>
      | Inr b \<Rightarrow>
          (case commit db b store of
             Inr store' \<Rightarrow>
               \<lparr>console = [Log ''Starting company upload...'',
                   Log (''Successfully uploaded '' @ show_nat (length companies)
                        @ '' companies to Firestore!'')],
                submitted = [b], applied = [b], store_after = store', settled = Resolved\<rparr>
           | Inl error \<Rightarrow>
               \<lparr>console = [Log ''Starting company upload...'',
                   Error ''Error uploading companies:'' error],
                submitted = [b], applied = [], store_after = store, settled = Resolved\<rparr>))"


subsection \<open>Vocabulary of the properties\<close>

text \<open>
  A run succeeded when the promise resolved and nothing went to \<^verbatim>\<open>console.error\<close>:
  the script reports a failed commit there, and any other failure rejects the promise.
\<close>

definition succeeded :: "('ref, 'e) run \<Rightarrow> bool" where
  "succeeded r = (settled r = Resolved \<and> \<not> list_ex is_Error (console r))"

text \<open>The write the loop body stages for one record.\<close>

definition staged :: "('ref, 'e) firestore \<Rightarrow> company \<Rightarrow> ('ref \<times> company) \<Rightarrow> bool" where
  "staged db company w =
     (doc db ''targetCompanies'' (companyName company) = Inr (fst w) \<and> snd w = company)"

text \<open>The records of the input that the client addresses to one document, in input order.\<close>

definition addressed_to ::
  "('ref, 'e) firestore \<Rightarrow> 'ref \<Rightarrow> company list \<Rightarrow> company list" where
  "addressed_to db docRef companies =
     filter (\<lambda>company. doc db ''targetCompanies'' (companyName company) = Inr docRef) companies"

text \<open>
  Modelled from the spec: a client whose \<^verbatim>\<open>doc\<close> follows section 3 and step 1 of
  section 4.1 of the specification, standing in for the client library the repository
  does not contain. The identity is used verbatim as the document key within the
  collection, and deriving the key fails when the identity is missing or empty, or is
  not a string. The store answers every commit with \<open>answer\<close>, and of several writes to
  one document it leaves the one staged last.
\<close>

definition verbatim_client :: "string option \<Rightarrow> (string \<times> string, string) firestore" where
  "verbatim_client answer =
     \<lparr>doc = (\<lambda>c v. case v of
                Some (JStr s) \<Rightarrow> if s = [] then Inl ''invalid document path'' else Inr (c, s)
              | _ \<Rightarrow> Inl ''invalid document path''),
      commit_error = (\<lambda>ws s. answer),
      winner = (\<lambda>ds. length ds - 1)\<rparr>"

text \<open>
  Two other clients the script can be given. The first reads the id as a path below the
  collection and ignores slashes at its start, so that two different ids can address one
  document. The second is the verbatim client over a store that, of several writes to one
  document, leaves the one staged first.
\<close>

definition path_client :: "string option \<Rightarrow> (string \<times> string, string) firestore" where
  "path_client answer =
     \<lparr>doc = (\<lambda>c v. case v of
                Some (JStr s) \<Rightarrow>
                  if dropWhile (\<lambda>x. x = CHR ''/'') s = [] then Inl ''invalid document path''
                  else Inr (c, dropWhile (\<lambda>x. x = CHR ''/'') s)
              | _ \<Rightarrow> Inl ''invalid document path''),
      commit_error = (\<lambda>ws s. answer),
      winner = (\<lambda>ds. length ds - 1)\<rparr>"


text \<open>
  The two records of the scenario in section 8 of the specification, a second record with
  the companyName of the first, and a record whose companyName differs from it by a slash.
\<close>

definition acme :: company where
  "acme = [(''companyName'', JStr ''Acme''), (''role'', JStr ''SWE'')]"

definition globex :: company where
  "globex = [(''companyName'', JStr ''Globex''), (''role'', JStr ''PM'')]"

definition acme_ceo :: company where
  "acme_ceo = [(''companyName'', JStr ''Acme''), (''role'', JStr ''CEO'')]"

definition slash_acme :: company where
  "slash_acme = [(''companyName'', JStr ''/Acme''), (''role'', JStr ''CFO'')]"

section \<open>Properties\<close>

subsection \<open>The batch and the loop\<close>

lemma staged_for_Nil_iff: "staged_for docRef ws = [] \<longleftrightarrow> docRef \<notin> fst ` set ws"
  by (auto simp: staged_for_def filter_empty_conv)

lemma staged_for_member:
  "data \<in> set (staged_for docRef ws) \<longleftrightarrow> (docRef, data) \<in> set ws"
  by (induction ws) (auto simp: staged_for_def)

lemma apply_writes_outside:
  "docRef \<notin> fst ` set ws \<Longrightarrow> apply_writes db ws s docRef = s docRef"
  using staged_for_Nil_iff [of docRef ws] by (simp add: apply_writes_def)

lemma apply_writes_staged:
  assumes "staged_for docRef ws \<noteq> []"
  shows "apply_writes db ws s docRef =
    Some (staged_for docRef ws
      ! min (winner db (staged_for docRef ws)) (length (staged_for docRef ws) - 1))"
  using assms by (cases "staged_for docRef ws") (simp_all add: apply_writes_def)

lemma apply_writes_inside:
  assumes "docRef \<in> fst ` set ws"
  shows "\<exists>data. (docRef, data) \<in> set ws \<and> apply_writes db ws s docRef = Some data"
proof -
  let ?ds = "staged_for docRef ws"
  from assms have ne: "?ds \<noteq> []"
    by (simp add: staged_for_Nil_iff)
  then have "min (winner db ?ds) (length ?ds - 1) < length ?ds"
    by (cases ?ds) simp_all
  then have "?ds ! min (winner db ?ds) (length ?ds - 1) \<in> set ?ds"
    by (rule nth_mem)
  then have "(docRef, ?ds ! min (winner db ?ds) (length ?ds - 1)) \<in> set ws"
    by (simp add: staged_for_member)
  with apply_writes_staged [OF ne] show ?thesis
    by blast
qed

lemma apply_writes_twice:
  "apply_writes db ws (apply_writes db ws s) = apply_writes db ws s"
  by (rule ext) (simp add: apply_writes_def split: list.splits)

lemma forEach_company_Inr:
  "forEach_company db companies b = Inr b' \<Longrightarrow>
     \<exists>ws. b' = b @ ws \<and> list_all2 (staged db) companies ws"
proof (induction companies arbitrary: b)
  case Nil
  then show ?case by simp
next
  case (Cons company rest)
  then obtain docRef where d: "doc db ''targetCompanies'' (companyName company) = Inr docRef"
    and r: "forEach_company db rest (batch_set b docRef company) = Inr b'"
    by (auto split: sum.splits)
  from Cons.IH [OF r] obtain ws
    where "b' = batch_set b docRef company @ ws" "list_all2 (staged db) rest ws"
    by blast
  then have "b' = b @ ((docRef, company) # ws) \<and>
      list_all2 (staged db) (company # rest) ((docRef, company) # ws)"
    using d by (simp add: batch_set_def staged_def)
  then show ?case by blast
qed

lemma forEach_company_batch:
  "forEach_company db companies batch = Inr b \<Longrightarrow> list_all2 (staged db) companies b"
  using forEach_company_Inr [of db companies batch b] by (simp add: batch_def)

lemma forEach_company_Inl:
  "\<exists>c\<in>set companies. \<exists>e. doc db ''targetCompanies'' (companyName c) = Inl e \<Longrightarrow>
     \<exists>e. forEach_company db companies b = Inl e"
proof (induction companies arbitrary: b)
  case Nil
  then show ?case by simp
next
  case (Cons company rest)
  show ?case
  proof (cases "doc db ''targetCompanies'' (companyName company)")
    case (Inl e)
    then show ?thesis by simp
  next
    case (Inr docRef)
    with Cons.prems
    have "\<exists>c\<in>set rest. \<exists>e. doc db ''targetCompanies'' (companyName c) = Inl e"
      by auto
    from Cons.IH [OF this] Inr show ?thesis by simp
  qed
qed

lemma forEach_company_doc_only:
  "doc db' = doc db \<Longrightarrow> forEach_company db' companies b = forEach_company db companies b"
  by (induction companies arbitrary: b) (auto split: sum.splits)


lemma staged_member:
  assumes "list_all2 (staged db) companies ws" and "(docRef, data) \<in> set ws"
  shows "data \<in> set companies \<and> doc db ''targetCompanies'' (companyName data) = Inr docRef"
  using assms by (induction rule: list_all2_induct) (auto simp: staged_def)

subsection \<open>The three ways a run ends\<close>

lemma uploadCompanies_thrown:
  assumes "forEach_company db companies batch = Inl e"
  shows "uploadCompanies db companies store =
    \<lparr>console = [Log ''Starting company upload...''],
     submitted = [], applied = [], store_after = store, settled = Rejected e\<rparr>"
  using assms by (simp add: uploadCompanies_def)

lemma uploadCompanies_rejected:
  assumes "forEach_company db companies batch = Inr b" and "commit db b store = Inl e"
  shows "uploadCompanies db companies store =
    \<lparr>console = [Log ''Starting company upload...'', Error ''Error uploading companies:'' e],
     submitted = [b], applied = [], store_after = store, settled = Resolved\<rparr>"
  using assms by (simp add: uploadCompanies_def)

lemma uploadCompanies_committed:
  assumes "forEach_company db companies batch = Inr b" and "commit db b store = Inr store'"
  shows "uploadCompanies db companies store =
    \<lparr>console = [Log ''Starting company upload...'',
        Log (''Successfully uploaded '' @ show_nat (length companies)
             @ '' companies to Firestore!'')],
     submitted = [b], applied = [b], store_after = store', settled = Resolved\<rparr>"
  using assms by (simp add: uploadCompanies_def)

lemma commit_Inr: "commit db b s = Inr s' \<Longrightarrow> s' = apply_writes db b s"
  by (auto simp: commit_def split: option.splits)

lemma succeeded_cases:
  assumes "succeeded (uploadCompanies db companies store)"
  obtains b where "forEach_company db companies batch = Inr b"
    and "commit db b store = Inr (apply_writes db b store)"
proof (cases "forEach_company db companies batch")
  case (Inl e)
  with assms show ?thesis
    by (simp add: uploadCompanies_thrown succeeded_def)
next
  case (Inr b)
  show ?thesis
  proof (cases "commit db b store")
    case (Inl e)
    with Inr assms show ?thesis
      by (simp add: uploadCompanies_rejected succeeded_def)
  next
    case (Inr store')
    with \<open>forEach_company db companies batch = Inr b\<close> that commit_Inr [OF Inr]
    show ?thesis by simp
  qed
qed



lemma staged_total:
  assumes "list_all2 (staged db) companies ws" and "c \<in> set companies"
  shows "\<exists>docRef. doc db ''targetCompanies'' (companyName c) = Inr docRef"
  using assms by (induction rule: list_all2_induct) (auto simp: staged_def)

lemma staged_nth:
  assumes "list_all2 (staged db) companies ws" and "i < length companies"
  shows "snd (ws ! i) = companies ! i \<and>
    doc db ''targetCompanies'' (companyName (companies ! i)) = Inr (fst (ws ! i))"
  using list_all2_nthD [OF assms] by (simp add: staged_def)

subsection \<open>The numeral in the success message\<close>

lemma digit_inj: "a < 10 \<Longrightarrow> b < 10 \<Longrightarrow> digit a = digit b \<Longrightarrow> a = b"
proof -
  assume "a < 10" and "b < 10"
  then have "a \<in> {0, 1, 2, 3, 4, 5, 6, 7, 8, 9}" "b \<in> {0, 1, 2, 3, 4, 5, 6, 7, 8, 9}"
    by auto
  moreover assume "digit a = digit b"
  ultimately show "a = b"
    by (auto simp: digit_def)
qed

lemma show_nat_not_Nil: "show_nat n \<noteq> []"
  by (subst show_nat.simps) simp

lemma show_nat_inj: "show_nat m = show_nat n \<Longrightarrow> m = n"
proof (induction m arbitrary: n rule: show_nat.induct)
  case (1 m)
  show ?case
  proof (cases "m < 10")
    case True
    then have m: "show_nat m = [digit m]"
      by (subst show_nat.simps) simp
    show ?thesis
    proof (cases "n < 10")
      case True
      then have "show_nat n = [digit n]"
        by (subst show_nat.simps) simp
      with m "1.prems" \<open>m < 10\<close> True show ?thesis
        by (simp add: digit_inj)
    next
      case False
      then have "show_nat n = show_nat (n div 10) @ [digit (n mod 10)]"
        by (subst show_nat.simps) simp
      with m "1.prems" show_nat_not_Nil [of "n div 10"] show ?thesis
        by (simp add: Cons_eq_append_conv)
    qed
  next
    case False
    then have m: "show_nat m = show_nat (m div 10) @ [digit (m mod 10)]"
      by (subst show_nat.simps) simp
    show ?thesis
    proof (cases "n < 10")
      case True
      then have "show_nat n = [digit n]"
        by (subst show_nat.simps) simp
      with m "1.prems" show_nat_not_Nil [of "m div 10"] show ?thesis
        by (simp add: append_eq_Cons_conv)
    next
      case n: False
      then have "show_nat n = show_nat (n div 10) @ [digit (n mod 10)]"
        by (subst show_nat.simps) simp
      with m "1.prems" have "show_nat (m div 10) = show_nat (n div 10)"
        and d: "digit (m mod 10) = digit (n mod 10)"
        by simp_all
      with "1.IH" False have "m div 10 = n div 10"
        by blast
      moreover from d have "m mod 10 = n mod 10"
        by (simp add: digit_inj)
      ultimately show ?thesis
        by (metis div_mult_mod_eq)
    qed
  qed
qed


subsection \<open>What the script leaves to the client\<close>

text \<open>
  The loop passes whatever \<^verbatim>\<open>company.companyName\<close> is to the client: where the
  client gives a reference, the record is staged, also when the property is missing.
\<close>

lemma forEach_company_no_check_of_its_own:
  assumes "doc db ''targetCompanies'' (companyName company) = Inr docRef"
  shows "forEach_company db [company] batch = Inr [(docRef, company)]"
  using assms by (simp add: batch_def batch_set_def)

text \<open>A rejected commit is reported in the same way for every input, the empty one included.\<close>

lemma uploadCompanies_empty_rejected:
  assumes "commit_error db [] store = Some e"
  shows "uploadCompanies db [] store =
    \<lparr>console = [Log ''Starting company upload...'', Error ''Error uploading companies:'' e],
     submitted = [[]], applied = [], store_after = store, settled = Resolved\<rparr>"
  using assms by (simp add: uploadCompanies_def batch_def commit_def)


lemma staged_for_addressed:
  assumes "list_all2 (staged db) companies ws"
  shows "staged_for docRef ws = addressed_to db docRef companies"
  using assms
  by (induction rule: list_all2_induct) (auto simp: staged_def staged_for_def addressed_to_def)


lemma store_after_success:
  assumes "succeeded (uploadCompanies db companies store)"
  shows "store_after (uploadCompanies db companies store) docRef =
    (if addressed_to db docRef companies = [] then store docRef
     else Some (addressed_to db docRef companies
       ! min (winner db (addressed_to db docRef companies))
           (length (addressed_to db docRef companies) - 1)))"
proof -
  from assms obtain b where b: "forEach_company db companies batch = Inr b"
    and co: "commit db b store = Inr (apply_writes db b store)"
    by (rule succeeded_cases)
  have after: "store_after (uploadCompanies db companies store) = apply_writes db b store"
    using uploadCompanies_committed [OF b co] by simp
  have st: "staged_for docRef b = addressed_to db docRef companies"
    using forEach_company_batch [OF b] by (rule staged_for_addressed)
  show ?thesis
  proof (cases "addressed_to db docRef companies = []")
    case True
    with st have "docRef \<notin> fst ` set b"
      by (simp add: staged_for_Nil_iff)
    from apply_writes_outside [OF this] after True show ?thesis
      by simp
  next
    case False
    with st have "staged_for docRef b \<noteq> []"
      by simp
    from apply_writes_staged [OF this] st after False show ?thesis
      by simp
  qed
qed


lemma addressed_to_member:
  "c \<in> set (addressed_to db docRef companies) \<longleftrightarrow>
     c \<in> set companies \<and> doc db ''targetCompanies'' (companyName c) = Inr docRef"
  by (simp add: addressed_to_def)

lemma store_after_success_member:
  assumes ok: "succeeded (uploadCompanies db companies store)"
    and c: "c \<in> set companies"
    and d: "doc db ''targetCompanies'' (companyName c) = Inr docRef"
  shows "\<exists>c'\<in>set companies.
    doc db ''targetCompanies'' (companyName c') = Inr docRef \<and>
    store_after (uploadCompanies db companies store) docRef = Some c'"
proof -
  let ?cs = "addressed_to db docRef companies"
  from c d have "c \<in> set ?cs"
    by (simp add: addressed_to_member)
  then have ne: "?cs \<noteq> []"
    by auto
  then have "min (winner db ?cs) (length ?cs - 1) < length ?cs"
    by (cases ?cs) simp_all
  then have "?cs ! min (winner db ?cs) (length ?cs - 1) \<in> set ?cs"
    by (rule nth_mem)
  then have "?cs ! min (winner db ?cs) (length ?cs - 1) \<in> set companies \<and>
    doc db ''targetCompanies''
      (companyName (?cs ! min (winner db ?cs) (length ?cs - 1))) = Inr docRef"
    by (simp add: addressed_to_member)
  with store_after_success [OF ok, of docRef] ne show ?thesis
    by auto
qed

lemma documents_present_count:
  assumes ok: "succeeded (uploadCompanies db companies store)"
  shows "card {docRef. (\<exists>c\<in>set companies.
              doc db ''targetCompanies'' (companyName c) = Inr docRef) \<and>
            store_after (uploadCompanies db companies store) docRef \<noteq> None}
      = card (doc db ''targetCompanies'' ` companyName ` set companies)"
proof -
  from ok obtain b where b: "forEach_company db companies batch = Inr b"
    by (rule succeeded_cases)
  have st: "list_all2 (staged db) companies b"
    using b by (rule forEach_company_batch)
  let ?T = "{docRef. \<exists>c\<in>set companies.
    doc db ''targetCompanies'' (companyName c) = Inr docRef}"
  have "{docRef. (\<exists>c\<in>set companies.
              doc db ''targetCompanies'' (companyName c) = Inr docRef) \<and>
            store_after (uploadCompanies db companies store) docRef \<noteq> None} = ?T"
    using store_after_success_member [OF ok] by auto
  moreover have "Inr ` ?T = doc db ''targetCompanies'' ` companyName ` set companies"
  proof (rule set_eqI, rule iffI)
    fix x :: "'b + 'a"
    assume "x \<in> Inr ` ?T"
    then obtain c where "c \<in> set companies"
      and "doc db ''targetCompanies'' (companyName c) = x"
      by auto
    then show "x \<in> doc db ''targetCompanies'' ` companyName ` set companies"
      by blast
  next
    fix x :: "'b + 'a"
    assume "x \<in> doc db ''targetCompanies'' ` companyName ` set companies"
    then obtain c where c: "c \<in> set companies"
      and x: "x = doc db ''targetCompanies'' (companyName c)"
      by auto
    from staged_total [OF st c] obtain docRef
      where d: "doc db ''targetCompanies'' (companyName c) = Inr docRef"
      by blast
    with c have "docRef \<in> ?T" by blast
    with x d show "x \<in> Inr ` ?T" by simp
  qed
  then have "card (Inr ` ?T :: ('b + 'a) set)
      = card (doc db ''targetCompanies'' ` companyName ` set companies)"
    by simp
  then have "card ?T = card (doc db ''targetCompanies'' ` companyName ` set companies)"
    by (simp add: card_image)
  ultimately show ?thesis by simp
qed

section \<open>The claims\<close>

text \<open>
  C1. A record set with a record whose companyName is missing or empty: the run fails
  before any network call. The script has no check of its own; the failure is the
  exception of the client's \<^verbatim>\<open>doc\<close>, which the loop does not catch. Given a client
  that throws for a missing and for an empty id, whatever the other records are, no batch
  is handed to \<^verbatim>\<open>commit\<close>, nothing is applied, the store is as before, only the
  starting line is printed, and the promise rejects.
\<close>

theorem malformed_record_aborts_before_commit:
  assumes missing: "doc db ''targetCompanies'' None = Inl e1"
    and empty: "doc db ''targetCompanies'' (Some (JStr [])) = Inl e2"
    and c: "c \<in> set companies"
    and unusable: "companyName c = None \<or> companyName c = Some (JStr [])"
  shows "\<exists>e. uploadCompanies db companies store =
    \<lparr>console = [Log ''Starting company upload...''],
     submitted = [], applied = [], store_after = store, settled = Rejected e\<rparr>"
proof -
  from missing empty unusable
  have "\<exists>e. doc db ''targetCompanies'' (companyName c) = Inl e"
    by auto
  with c have "\<exists>c\<in>set companies. \<exists>e. doc db ''targetCompanies'' (companyName c) = Inl e"
    by blast
  from forEach_company_Inl [OF this]
  obtain e where "forEach_company db companies batch = Inl e"
    by blast
  from uploadCompanies_thrown [OF this] show ?thesis
    by blast
qed

theorem malformed_record_aborts_before_commit_witness:
  "doc (verbatim_client None) ''targetCompanies'' None = Inl ''invalid document path'' \<and>
   doc (verbatim_client None) ''targetCompanies'' (Some (JStr [])) = Inl ''invalid document path'' \<and>
   [(''role'', JStr ''CTO'')] \<in> set [acme, [(''role'', JStr ''CTO'')], globex] \<and>
   companyName [(''role'', JStr ''CTO'')] = None \<and>
   (\<exists>e. uploadCompanies (verbatim_client None) [acme, [(''role'', JStr ''CTO'')], globex]
           Map.empty =
      \<lparr>console = [Log ''Starting company upload...''],
       submitted = [], applied = [], store_after = Map.empty, settled = Rejected e\<rparr>)"
proof -
  have h1: "doc (verbatim_client None) ''targetCompanies'' None = Inl ''invalid document path''"
    by (simp add: verbatim_client_def)
  have h2: "doc (verbatim_client None) ''targetCompanies'' (Some (JStr []))
      = Inl ''invalid document path''"
    by (simp add: verbatim_client_def)
  have h3: "[(''role'', JStr ''CTO'')] \<in> set [acme, [(''role'', JStr ''CTO'')], globex]"
    by simp
  have h4: "companyName [(''role'', JStr ''CTO'')] = None"
    by (simp add: companyName_def)
  from malformed_record_aborts_before_commit [OF h1 h2 h3 disjI1 [OF h4], of Map.empty]
    h1 h2 h3 h4
  show ?thesis by blast
qed

text \<open>
  C2. When the commit of the batch the loop built fails, the store after the run is the
  store before it, and no batch was applied: the rejected batch is dropped as a whole, and
  the \<^verbatim>\<open>catch\<close> only logs.
\<close>

theorem failed_commit_leaves_store_unchanged:
  assumes "forEach_company db companies batch = Inr b" and "commit db b store = Inl e"
  shows "store_after (uploadCompanies db companies store) = store \<and>
    applied (uploadCompanies db companies store) = []"
  using uploadCompanies_rejected [OF assms] by simp

theorem failed_commit_leaves_store_unchanged_witness:
  "forEach_company (verbatim_client (Some ''quota exceeded'')) [acme, globex] batch
     = Inr [((''targetCompanies'', ''Acme''), acme), ((''targetCompanies'', ''Globex''), globex)] \<and>
   commit (verbatim_client (Some ''quota exceeded''))
     [((''targetCompanies'', ''Acme''), acme), ((''targetCompanies'', ''Globex''), globex)]
     [(''targetCompanies'', ''Acme'') \<mapsto> globex] = Inl ''quota exceeded'' \<and>
   store_after (uploadCompanies (verbatim_client (Some ''quota exceeded'')) [acme, globex]
     [(''targetCompanies'', ''Acme'') \<mapsto> globex]) = [(''targetCompanies'', ''Acme'') \<mapsto> globex] \<and>
   applied (uploadCompanies (verbatim_client (Some ''quota exceeded'')) [acme, globex]
     [(''targetCompanies'', ''Acme'') \<mapsto> globex]) = []"
proof -
  have h1: "forEach_company (verbatim_client (Some ''quota exceeded'')) [acme, globex] batch
     = Inr [((''targetCompanies'', ''Acme''), acme), ((''targetCompanies'', ''Globex''), globex)]"
    by (simp add: verbatim_client_def companyName_def acme_def globex_def batch_def
        batch_set_def)
  have h2: "commit (verbatim_client (Some ''quota exceeded''))
     [((''targetCompanies'', ''Acme''), acme), ((''targetCompanies'', ''Globex''), globex)]
     [(''targetCompanies'', ''Acme'') \<mapsto> globex] = Inl ''quota exceeded''"
    by (simp add: verbatim_client_def commit_def)
  from failed_commit_leaves_store_unchanged [OF h1 h2] h1 h2
  show ?thesis by blast
qed


text \<open>
  C4. A successful run reports the number of records of the input: the second console
  line is the success message with the decimal numeral of \<^verbatim>\<open>companies.length\<close>,
  and that numeral is the numeral of no other number.
\<close>

theorem success_reports_record_count:
  assumes "succeeded (uploadCompanies db companies store)"
  shows "console (uploadCompanies db companies store) =
      [Log ''Starting company upload...'',
       Log (''Successfully uploaded '' @ show_nat (length companies)
            @ '' companies to Firestore!'')] \<and>
    (\<forall>m. show_nat m = show_nat (length companies) \<longrightarrow> m = length companies)"
proof -
  from assms obtain b where "forEach_company db companies batch = Inr b"
    and "commit db b store = Inr (apply_writes db b store)"
    by (rule succeeded_cases)
  from uploadCompanies_committed [OF this] show ?thesis
    by (simp add: show_nat_inj)
qed

theorem success_reports_record_count_witness:
  "succeeded (uploadCompanies (verbatim_client None) [acme, globex, acme] Map.empty) \<and>
   console (uploadCompanies (verbatim_client None) [acme, globex, acme] Map.empty) =
     [Log ''Starting company upload...'',
      Log ''Successfully uploaded 3 companies to Firestore!'']"
proof -
  have h: "succeeded (uploadCompanies (verbatim_client None) [acme, globex, acme] Map.empty)"
    by (simp add: succeeded_def uploadCompanies_def verbatim_client_def companyName_def
        acme_def globex_def batch_def batch_set_def commit_def)
  have "show_nat (length [acme, globex, acme]) = ''3''"
    by (simp add: show_nat.simps digit_def)
  with success_reports_record_count [OF h] h show ?thesis
    by simp
qed

text \<open>
  C8. When the commit of the batch rejects, the run prints the error after the starting
  line and the promise of \<^verbatim>\<open>uploadCompanies()\<close> resolves: nothing is rethrown. The
  script sets no exit status, so the status follows from how the promise settles, and it
  settles as in every successful run.
\<close>

theorem rejected_commit_resolves_normally:
  assumes "forEach_company db companies batch = Inr b" and "commit db b store = Inl e"
  shows "console (uploadCompanies db companies store) =
      [Log ''Starting company upload...'', Error ''Error uploading companies:'' e] \<and>
    settled (uploadCompanies db companies store) = Resolved \<and>
    (\<forall>db' store'. succeeded (uploadCompanies db' companies store') \<longrightarrow>
       settled (uploadCompanies db' companies store')
         = settled (uploadCompanies db companies store))"
  using uploadCompanies_rejected [OF assms] by (simp add: succeeded_def)

theorem rejected_commit_resolves_normally_witness:
  "forEach_company (verbatim_client (Some ''permission denied'')) [acme] batch
     = Inr [((''targetCompanies'', ''Acme''), acme)] \<and>
   commit (verbatim_client (Some ''permission denied''))
     [((''targetCompanies'', ''Acme''), acme)] Map.empty = Inl ''permission denied'' \<and>
   succeeded (uploadCompanies (verbatim_client None) [acme] Map.empty) \<and>
   console (uploadCompanies (verbatim_client (Some ''permission denied'')) [acme] Map.empty) =
     [Log ''Starting company upload...'',
      Error ''Error uploading companies:'' ''permission denied''] \<and>
   settled (uploadCompanies (verbatim_client (Some ''permission denied'')) [acme] Map.empty)
     = Resolved \<and>
   settled (uploadCompanies (verbatim_client None) [acme] Map.empty) =
     settled (uploadCompanies (verbatim_client (Some ''permission denied'')) [acme] Map.empty)"
proof -
  have h1: "forEach_company (verbatim_client (Some ''permission denied'')) [acme] batch
     = Inr [((''targetCompanies'', ''Acme''), acme)]"
    by (simp add: verbatim_client_def companyName_def acme_def batch_def batch_set_def)
  have h2: "commit (verbatim_client (Some ''permission denied''))
     [((''targetCompanies'', ''Acme''), acme)] Map.empty = Inl ''permission denied''"
    by (simp add: verbatim_client_def commit_def)
  have h3: "succeeded (uploadCompanies (verbatim_client None) [acme] Map.empty)"
    by (simp add: succeeded_def uploadCompanies_def verbatim_client_def companyName_def
        acme_def batch_def batch_set_def commit_def)
  from rejected_commit_resolves_normally [OF h1 h2] h1 h2 h3
  show ?thesis by blast
qed

text \<open>
  C9. The batch handed to \<^verbatim>\<open>commit\<close> holds one write per record, in input order:
  the data of the write is the record itself, addressed by the reference the client gives
  for the record's companyName in the collection targetCompanies. So the companyName is
  both what the document is addressed by and a property of the stored data. A successful
  run applies exactly this batch.
\<close>

theorem document_is_whole_record:
  assumes "submitted (uploadCompanies db companies store) = [b]"
  shows "length b = length companies \<and>
    (\<forall>i<length companies.
       snd (b ! i) = companies ! i \<and>
       doc db ''targetCompanies'' (companyName (companies ! i)) = Inr (fst (b ! i)) \<and>
       map_of (snd (b ! i)) ''companyName'' = companyName (companies ! i)) \<and>
    (succeeded (uploadCompanies db companies store) \<longrightarrow>
       applied (uploadCompanies db companies store) = [b] \<and>
       store_after (uploadCompanies db companies store) = apply_writes db b store)"
proof -
  from assms have b: "forEach_company db companies batch = Inr b"
    by (auto simp: uploadCompanies_def split: sum.splits)
  then have st: "list_all2 (staged db) companies b"
    by (rule forEach_company_batch)
  then have len: "length b = length companies"
    by (simp add: list_all2_lengthD)
  have nth: "\<forall>i<length companies.
       snd (b ! i) = companies ! i \<and>
       doc db ''targetCompanies'' (companyName (companies ! i)) = Inr (fst (b ! i)) \<and>
       map_of (snd (b ! i)) ''companyName'' = companyName (companies ! i)"
    using staged_nth [OF st] by (simp add: companyName_def)
  have "applied (uploadCompanies db companies store) = [b] \<and>
       store_after (uploadCompanies db companies store) = apply_writes db b store"
    if "succeeded (uploadCompanies db companies store)"
  proof -
    from that obtain b' where b': "forEach_company db companies batch = Inr b'"
      and c: "commit db b' store = Inr (apply_writes db b' store)"
      by (rule succeeded_cases)
    from b b' have "b' = b" by simp
    with uploadCompanies_committed [OF b' c] show ?thesis by simp
  qed
  with len nth show ?thesis by blast
qed

theorem document_is_whole_record_witness:
  "submitted (uploadCompanies (verbatim_client None) [acme, globex] Map.empty) =
     [[((''targetCompanies'', ''Acme''), acme), ((''targetCompanies'', ''Globex''), globex)]] \<and>
   succeeded (uploadCompanies (verbatim_client None) [acme, globex] Map.empty) \<and>
   map_of acme ''companyName'' = Some (JStr ''Acme'') \<and>
   applied (uploadCompanies (verbatim_client None) [acme, globex] Map.empty) =
     [[((''targetCompanies'', ''Acme''), acme), ((''targetCompanies'', ''Globex''), globex)]] \<and>
   store_after (uploadCompanies (verbatim_client None) [acme, globex] Map.empty) =
     apply_writes (verbatim_client None)
       [((''targetCompanies'', ''Acme''), acme), ((''targetCompanies'', ''Globex''), globex)]
       Map.empty"
proof -
  have h1: "submitted (uploadCompanies (verbatim_client None) [acme, globex] Map.empty) =
     [[((''targetCompanies'', ''Acme''), acme), ((''targetCompanies'', ''Globex''), globex)]]"
    by (simp add: uploadCompanies_def verbatim_client_def companyName_def
        acme_def globex_def batch_def batch_set_def commit_def)
  have h2: "succeeded (uploadCompanies (verbatim_client None) [acme, globex] Map.empty)"
    by (simp add: succeeded_def uploadCompanies_def verbatim_client_def companyName_def
        acme_def globex_def batch_def batch_set_def commit_def)
  have h3: "map_of acme ''companyName'' = Some (JStr ''Acme'')"
    by (simp add: acme_def)
  from document_is_whole_record [OF h1] h1 h2 h3
  show ?thesis by blast
qed


text \<open>
  C5. After a successful run, a second run on the same records, through a client that
  addresses documents in the same way over the same store, leaves the store as the first
  run left it, whether its commit is acknowledged or not: every staged write overwrites
  the whole document at the same reference with the same record.
\<close>

theorem rerun_leaves_store_as_first_run:
  assumes ok: "succeeded (uploadCompanies db companies store)"
    and same: "doc db' = doc db"
    and policy: "winner db' = winner db"
  shows "store_after (uploadCompanies db' companies
        (store_after (uploadCompanies db companies store)))
      = store_after (uploadCompanies db companies store)"
proof -
  from ok obtain b where b: "forEach_company db companies batch = Inr b"
    and co: "commit db b store = Inr (apply_writes db b store)"
    by (rule succeeded_cases)
  have after: "store_after (uploadCompanies db companies store) = apply_writes db b store"
    using uploadCompanies_committed [OF b co] by simp
  have b': "forEach_company db' companies batch = Inr b"
    using b forEach_company_doc_only [OF same] by simp
  have w: "apply_writes db' b s = apply_writes db b s" for s
    by (simp only: apply_writes_def policy)
  show ?thesis
  proof (cases "commit db' b (apply_writes db b store)")
    case (Inl e)
    from uploadCompanies_rejected [OF b' Inl] after show ?thesis by simp
  next
    case (Inr store'')
    from commit_Inr [OF Inr] have "store'' = apply_writes db b store"
      by (simp add: w apply_writes_twice)
    with uploadCompanies_committed [OF b' Inr] after show ?thesis by simp
  qed
qed

theorem rerun_leaves_store_as_first_run_witness:
  "succeeded (uploadCompanies (verbatim_client None) [acme, globex]
      [(''targetCompanies'', ''Acme'') \<mapsto> globex]) \<and>
   doc (verbatim_client (Some ''unavailable'')) = doc (verbatim_client None) \<and>
   winner (verbatim_client (Some ''unavailable'')) = winner (verbatim_client None) \<and>
   store_after (uploadCompanies (verbatim_client None) [acme, globex]
      (store_after (uploadCompanies (verbatim_client None) [acme, globex]
         [(''targetCompanies'', ''Acme'') \<mapsto> globex])))
     = store_after (uploadCompanies (verbatim_client None) [acme, globex]
         [(''targetCompanies'', ''Acme'') \<mapsto> globex]) \<and>
   store_after (uploadCompanies (verbatim_client (Some ''unavailable'')) [acme, globex]
      (store_after (uploadCompanies (verbatim_client None) [acme, globex]
         [(''targetCompanies'', ''Acme'') \<mapsto> globex])))
     = store_after (uploadCompanies (verbatim_client None) [acme, globex]
         [(''targetCompanies'', ''Acme'') \<mapsto> globex]) \<and>
   store_after (uploadCompanies (verbatim_client None) [acme, globex]
      [(''targetCompanies'', ''Acme'') \<mapsto> globex]) (''targetCompanies'', ''Acme'')
     = Some acme"
proof -
  have h1: "succeeded (uploadCompanies (verbatim_client None) [acme, globex]
      [(''targetCompanies'', ''Acme'') \<mapsto> globex])"
    by (simp add: succeeded_def uploadCompanies_def verbatim_client_def companyName_def
        acme_def globex_def batch_def batch_set_def commit_def)
  have h2: "doc (verbatim_client (Some ''unavailable'')) = doc (verbatim_client None)"
    by (simp add: verbatim_client_def)
  have h3: "store_after (uploadCompanies (verbatim_client None) [acme, globex]
      [(''targetCompanies'', ''Acme'') \<mapsto> globex]) (''targetCompanies'', ''Acme'')
     = Some acme"
    by (simp add: uploadCompanies_def verbatim_client_def companyName_def
        acme_def globex_def batch_def batch_set_def commit_def apply_writes_def
        staged_for_def)
  have h4: "winner (verbatim_client (Some ''unavailable'')) = winner (verbatim_client None)"
    by (simp add: verbatim_client_def)
  from rerun_leaves_store_as_first_run [OF h1 refl refl]
    rerun_leaves_store_as_first_run [OF h1 h2 h4] h1 h2 h3 h4
  show ?thesis by blast
qed




text \<open>
  C3, as the script has it. After a successful run, the documents present for the
  references the client gave are as many as these references are. They are as many as
  the different companyName values of the input exactly when the client addresses
  different values by different documents, which the script does not check. The document
  of every record holds a record of the input that is addressed to it, and it holds the
  record itself when no other record is addressed to it.
\<close>

theorem success_writes_one_document_per_reference:
  assumes ok: "succeeded (uploadCompanies db companies store)"
  shows "card {docRef. (\<exists>c\<in>set companies.
              doc db ''targetCompanies'' (companyName c) = Inr docRef) \<and>
            store_after (uploadCompanies db companies store) docRef \<noteq> None}
      = card (doc db ''targetCompanies'' ` companyName ` set companies) \<and>
    ((card {docRef. (\<exists>c\<in>set companies.
              doc db ''targetCompanies'' (companyName c) = Inr docRef) \<and>
            store_after (uploadCompanies db companies store) docRef \<noteq> None}
        = card (companyName ` set companies))
      = inj_on (doc db ''targetCompanies'') (companyName ` set companies)) \<and>
    (\<forall>c\<in>set companies. \<exists>docRef. \<exists>c'\<in>set companies.
       doc db ''targetCompanies'' (companyName c) = Inr docRef \<and>
       doc db ''targetCompanies'' (companyName c') = Inr docRef \<and>
       store_after (uploadCompanies db companies store) docRef = Some c') \<and>
    (\<forall>c\<in>set companies. \<forall>docRef.
       doc db ''targetCompanies'' (companyName c) = Inr docRef \<and>
       (\<forall>c'\<in>set companies.
          doc db ''targetCompanies'' (companyName c') = Inr docRef \<longrightarrow> c' = c) \<longrightarrow>
       store_after (uploadCompanies db companies store) docRef = Some c)"
proof -
  let ?present = "{docRef. (\<exists>c\<in>set companies.
              doc db ''targetCompanies'' (companyName c) = Inr docRef) \<and>
            store_after (uploadCompanies db companies store) docRef \<noteq> None}"
  have count: "card ?present = card (doc db ''targetCompanies'' ` companyName ` set companies)"
    using ok by (rule documents_present_count)
  have "finite (companyName ` set companies)"
    by simp
  then have "inj_on (doc db ''targetCompanies'') (companyName ` set companies) \<longleftrightarrow>
      card (doc db ''targetCompanies'' ` companyName ` set companies)
        = card (companyName ` set companies)"
    by (rule inj_on_iff_eq_card)
  with count have iff: "(card ?present = card (companyName ` set companies))
      = inj_on (doc db ''targetCompanies'') (companyName ` set companies)"
    by simp
  from ok obtain b where b: "forEach_company db companies batch = Inr b"
    by (rule succeeded_cases)
  have st: "list_all2 (staged db) companies b"
    using b by (rule forEach_company_batch)
  have some: "\<exists>docRef. \<exists>c'\<in>set companies.
       doc db ''targetCompanies'' (companyName c) = Inr docRef \<and>
       doc db ''targetCompanies'' (companyName c') = Inr docRef \<and>
       store_after (uploadCompanies db companies store) docRef = Some c'"
    if c: "c \<in> set companies" for c
  proof -
    from staged_total [OF st c]
    obtain docRef where d: "doc db ''targetCompanies'' (companyName c) = Inr docRef"
      by blast
    from store_after_success_member [OF ok c d] d show ?thesis
      by blast
  qed
  have own: "store_after (uploadCompanies db companies store) docRef = Some c"
    if c: "c \<in> set companies"
      and d: "doc db ''targetCompanies'' (companyName c) = Inr docRef"
      and only: "\<forall>c'\<in>set companies.
          doc db ''targetCompanies'' (companyName c') = Inr docRef \<longrightarrow> c' = c"
    for c docRef
  proof -
    from store_after_success_member [OF ok c d]
    obtain c' where "c' \<in> set companies"
      and "doc db ''targetCompanies'' (companyName c') = Inr docRef"
      and s: "store_after (uploadCompanies db companies store) docRef = Some c'"
      by blast
    with only have "c' = c" by blast
    with s show ?thesis by simp
  qed
  from count iff some own show ?thesis
    by blast
qed


theorem success_writes_one_document_per_reference_witness:
  "succeeded (uploadCompanies (verbatim_client None) [acme, acme_ceo, globex] Map.empty) \<and>
   globex \<in> set [acme, acme_ceo, globex] \<and>
   doc (verbatim_client None) ''targetCompanies'' (companyName globex)
     = Inr (''targetCompanies'', ''Globex'') \<and>
   card {docRef. (\<exists>c\<in>set [acme, acme_ceo, globex].
            doc (verbatim_client None) ''targetCompanies'' (companyName c) = Inr docRef) \<and>
          store_after (uploadCompanies (verbatim_client None) [acme, acme_ceo, globex]
            Map.empty) docRef \<noteq> None} = 2 \<and>
   card (companyName ` set [acme, acme_ceo, globex]) = 2 \<and>
   store_after (uploadCompanies (verbatim_client None) [acme, acme_ceo, globex] Map.empty)
     (''targetCompanies'', ''Globex'') = Some globex"
proof -
  have h1: "succeeded (uploadCompanies (verbatim_client None) [acme, acme_ceo, globex]
      Map.empty)"
    by (simp add: succeeded_def uploadCompanies_def verbatim_client_def companyName_def
        acme_def acme_ceo_def globex_def batch_def batch_set_def commit_def)
  have h2: "globex \<in> set [acme, acme_ceo, globex]"
    by simp
  have h3: "doc (verbatim_client None) ''targetCompanies'' (companyName globex)
     = Inr (''targetCompanies'', ''Globex'')"
    by (simp add: verbatim_client_def companyName_def globex_def)
  have h4: "\<forall>c'\<in>set [acme, acme_ceo, globex].
      doc (verbatim_client None) ''targetCompanies'' (companyName c')
        = Inr (''targetCompanies'', ''Globex'') \<longrightarrow> c' = globex"
    by (simp add: verbatim_client_def companyName_def acme_def acme_ceo_def globex_def)
  have n: "card (doc (verbatim_client None) ''targetCompanies''
      ` companyName ` set [acme, acme_ceo, globex]) = 2"
    by (simp add: verbatim_client_def companyName_def acme_def acme_ceo_def globex_def)
  have m: "card (companyName ` set [acme, acme_ceo, globex]) = 2"
    by (simp add: companyName_def acme_def acme_ceo_def globex_def)
  note t = success_writes_one_document_per_reference [OF h1]
  from t n have count: "card {docRef. (\<exists>c\<in>set [acme, acme_ceo, globex].
            doc (verbatim_client None) ''targetCompanies'' (companyName c) = Inr docRef) \<and>
          store_after (uploadCompanies (verbatim_client None) [acme, acme_ceo, globex]
            Map.empty) docRef \<noteq> None} = 2"
    by simp
  from t have "\<forall>c\<in>set [acme, acme_ceo, globex]. \<forall>docRef.
       doc (verbatim_client None) ''targetCompanies'' (companyName c) = Inr docRef \<and>
       (\<forall>c'\<in>set [acme, acme_ceo, globex].
          doc (verbatim_client None) ''targetCompanies'' (companyName c') = Inr docRef
            \<longrightarrow> c' = c) \<longrightarrow>
       store_after (uploadCompanies (verbatim_client None) [acme, acme_ceo, globex]
         Map.empty) docRef = Some c"
    by blast
  with h2 h3 h4
  have "store_after (uploadCompanies (verbatim_client None) [acme, acme_ceo, globex]
      Map.empty) (''targetCompanies'', ''Globex'') = Some globex"
    by blast
  with h1 h2 h3 count m show ?thesis
    by blast
qed

text \<open>
  C3 as it was stated fails where two different companyName values address one document:
  with a client that ignores a slash at the start of the id, the records Acme and /Acme
  give a successful run, two identities and one document.
\<close>

theorem two_identities_one_document_counterexample:
  "succeeded (uploadCompanies (path_client None) [acme, slash_acme] Map.empty) \<and>
   companyName acme \<noteq> companyName slash_acme \<and>
   doc (path_client None) ''targetCompanies'' (companyName acme)
     = Inr (''targetCompanies'', ''Acme'') \<and>
   doc (path_client None) ''targetCompanies'' (companyName slash_acme)
     = Inr (''targetCompanies'', ''Acme'') \<and>
   card (companyName ` set [acme, slash_acme]) = 2 \<and>
   card {docRef. (\<exists>c\<in>set [acme, slash_acme].
            doc (path_client None) ''targetCompanies'' (companyName c) = Inr docRef) \<and>
          store_after (uploadCompanies (path_client None) [acme, slash_acme] Map.empty)
            docRef \<noteq> None} = 1"
proof -
  have ok: "succeeded (uploadCompanies (path_client None) [acme, slash_acme] Map.empty)"
    by (simp add: succeeded_def uploadCompanies_def path_client_def companyName_def
        acme_def slash_acme_def batch_def batch_set_def commit_def)
  have "card (doc (path_client None) ''targetCompanies''
      ` companyName ` set [acme, slash_acme]) = 1"
    by (simp add: path_client_def companyName_def acme_def slash_acme_def)
  with documents_present_count [OF ok]
  have "card {docRef. (\<exists>c\<in>set [acme, slash_acme].
            doc (path_client None) ''targetCompanies'' (companyName c) = Inr docRef) \<and>
          store_after (uploadCompanies (path_client None) [acme, slash_acme] Map.empty)
            docRef \<noteq> None} = 1"
    by simp
  moreover have "card (companyName ` set [acme, slash_acme]) = 2"
    by (simp add: companyName_def acme_def slash_acme_def)
  moreover have "companyName acme \<noteq> companyName slash_acme"
    by (simp add: companyName_def acme_def slash_acme_def)
  moreover have "doc (path_client None) ''targetCompanies'' (companyName acme)
     = Inr (''targetCompanies'', ''Acme'')"
    by (simp add: path_client_def companyName_def acme_def)
  moreover have "doc (path_client None) ''targetCompanies'' (companyName slash_acme)
     = Inr (''targetCompanies'', ''Acme'')"
    by (simp add: path_client_def companyName_def slash_acme_def)
  ultimately show ?thesis
    using ok by blast
qed

text \<open>
  C6, as the script has it. The script has no shortcut for the empty record set: it
  hands the empty batch to \<^verbatim>\<open>commit\<close>. That commit changes nothing in the store,
  whatever the store answers. The run succeeds exactly when the store acknowledges it,
  and then reports the count 0; when the store rejects it, the run reports the error as
  for any other input.
\<close>

theorem empty_record_set_commits_empty_batch:
  "submitted (uploadCompanies db [] store) = [[]] \<and>
   store_after (uploadCompanies db [] store) = store \<and>
   succeeded (uploadCompanies db [] store) = (commit_error db [] store = None) \<and>
   (commit_error db [] store = None \<longrightarrow>
      uploadCompanies db [] store =
        \<lparr>console = [Log ''Starting company upload...'',
            Log ''Successfully uploaded 0 companies to Firestore!''],
         submitted = [[]], applied = [[]], store_after = store, settled = Resolved\<rparr>) \<and>
   (\<forall>e. commit_error db [] store = Some e \<longrightarrow>
      uploadCompanies db [] store =
        \<lparr>console = [Log ''Starting company upload...'',
            Error ''Error uploading companies:'' e],
         submitted = [[]], applied = [], store_after = store, settled = Resolved\<rparr>)"
proof -
  have z: "show_nat 0 = ''0''"
    by (simp add: show_nat.simps digit_def)
  have e: "apply_writes db [] store = store"
    by (simp add: apply_writes_def staged_for_def)
  show ?thesis
    by (cases "commit_error db [] store")
      (simp_all add: uploadCompanies_def batch_def commit_def succeeded_def z e)
qed

theorem empty_record_set_commits_empty_batch_witness:
  "commit_error (verbatim_client None) [] [(''targetCompanies'', ''Acme'') \<mapsto> acme] = None \<and>
   uploadCompanies (verbatim_client None) [] [(''targetCompanies'', ''Acme'') \<mapsto> acme] =
     \<lparr>console = [Log ''Starting company upload...'',
         Log ''Successfully uploaded 0 companies to Firestore!''],
      submitted = [[]], applied = [[]],
      store_after = [(''targetCompanies'', ''Acme'') \<mapsto> acme], settled = Resolved\<rparr> \<and>
   commit_error (verbatim_client (Some ''unavailable'')) []
     [(''targetCompanies'', ''Acme'') \<mapsto> acme] = Some ''unavailable'' \<and>
   uploadCompanies (verbatim_client (Some ''unavailable'')) []
       [(''targetCompanies'', ''Acme'') \<mapsto> acme] =
     \<lparr>console = [Log ''Starting company upload...'',
         Error ''Error uploading companies:'' ''unavailable''],
      submitted = [[]], applied = [],
      store_after = [(''targetCompanies'', ''Acme'') \<mapsto> acme], settled = Resolved\<rparr>"
proof -
  have h1: "commit_error (verbatim_client None) []
      [(''targetCompanies'', ''Acme'') \<mapsto> acme] = None"
    by (simp add: verbatim_client_def)
  have h2: "commit_error (verbatim_client (Some ''unavailable'')) []
     [(''targetCompanies'', ''Acme'') \<mapsto> acme] = Some ''unavailable''"
    by (simp add: verbatim_client_def)
  from empty_record_set_commits_empty_batch
    [of "verbatim_client None" "[(''targetCompanies'', ''Acme'') \<mapsto> acme]"]
    empty_record_set_commits_empty_batch
    [of "verbatim_client (Some ''unavailable'')" "[(''targetCompanies'', ''Acme'') \<mapsto> acme]"]
    h1 h2
  show ?thesis by blast
qed

text \<open>
  C6 as it was stated fails where the store rejects the commit of the empty batch: the
  run on the empty record set then ends in the error branch and reports no count.
\<close>

theorem empty_record_set_rejected_counterexample:
  "\<not> succeeded (uploadCompanies (verbatim_client (Some ''unavailable'')) [] Map.empty) \<and>
   console (uploadCompanies (verbatim_client (Some ''unavailable'')) [] Map.empty) =
     [Log ''Starting company upload...'',
      Error ''Error uploading companies:'' ''unavailable'']"
  by (simp add: succeeded_def uploadCompanies_def verbatim_client_def batch_def commit_def)





end
